theory Spec2Isabelle
  imports Main "HOL-Library.Sublist"
begin

section \<open>Strings of the dashboard\<close>

text \<open>
  \<^verbatim>\<open>dashboard.py\<close> works on Python \<^verbatim>\<open>str\<close> values. A character of the model is a
  \<^typ>\<open>char\<close>, read as a code point below 256, and a string is a \<^typ>\<open>string\<close>;
  \<open>length\<close> then counts what Python's \<^verbatim>\<open>len\<close> counts. The line feed is
  \<open>CHR 0x0A\<close> and the double quote is \<open>CHR 0x22\<close>.
\<close>

definition isspace :: "char \<Rightarrow> bool" where
  \<comment> \<open>the code points below 256 that \<^verbatim>\<open>str.isspace\<close>, \<^verbatim>\<open>str.strip\<close> and the pattern
      \<^verbatim>\<open>\s\<close> take for whitespace\<close>
  "isspace c =
     (let n = (of_char c :: nat)
      in (9 \<le> n \<and> n \<le> 13) \<or> (28 \<le> n \<and> n \<le> 32) \<or> n = 133 \<or> n = 160)"

definition strip :: "string \<Rightarrow> string" where
  \<comment> \<open>\<^verbatim>\<open>s.strip()\<close>\<close>
  "strip s = rev (dropWhile isspace (rev (dropWhile isspace s)))"

definition lower_char :: "char \<Rightarrow> char" where
  \<comment> \<open>\<^verbatim>\<open>str.lower\<close> on one code point below 256: A..Z and the accented capitals
      U+00C0..U+00DE (the sign U+00D7 apart) move up by 32\<close>
  "lower_char c =
     (let n = (of_char c :: nat)
      in if (65 \<le> n \<and> n \<le> 90) \<or> (192 \<le> n \<and> n \<le> 222 \<and> n \<noteq> 215)
         then char_of (n + 32) else c)"

definition lower :: "string \<Rightarrow> string" where
  \<comment> \<open>\<^verbatim>\<open>s.lower()\<close>\<close>
  "lower s = map lower_char s"

fun str_in :: "string \<Rightarrow> string \<Rightarrow> bool" where
  \<comment> \<open>\<^verbatim>\<open>q in s\<close> on strings: \<open>q\<close> starts at some position of \<open>s\<close>\<close>
  "str_in q [] = (q = [])"
| "str_in q (c # cs) = (prefix q (c # cs) \<or> str_in q cs)"

function re_split :: "string \<Rightarrow> string \<Rightarrow> string list" where
  \<comment> \<open>\<^verbatim>\<open>re.split(r'\n## ', content)\<close>, the segment being read kept reversed in the
      first argument: the separator is a literal of four characters that cannot
      overlap itself, so the matches are its occurrences from left to right\<close>
  "re_split acc [] = [rev acc]"
| "re_split acc (c # cs) =
     (if prefix (CHR 0x0A # ''## '') (c # cs)
      then rev acc # re_split [] (drop 3 cs)
      else re_split (c # acc) cs)"
  by pat_completeness auto
termination
  by (relation "measure (\<lambda>(acc, s). length s)") auto

fun split_nl :: "string \<Rightarrow> string \<Rightarrow> string list" where
  \<comment> \<open>\<^verbatim>\<open>section.split('\n')\<close>, the line being read kept reversed in the first argument\<close>
  "split_nl acc [] = [rev acc]"
| "split_nl acc (c # cs) =
     (if c = CHR 0x0A then rev acc # split_nl [] cs else split_nl (c # acc) cs)"

section \<open>Tool records and the category index\<close>

record tool =
  name :: string
  url :: string
  category :: string
  description :: string
  tool_id :: string

text \<open>
  \<^verbatim>\<open>categories\<close> is a \<^verbatim>\<open>defaultdict(list)\<close>: a dictionary in insertion order, so an
  association list with one pair for each key. \<^verbatim>\<open>categories[k].append(v)\<close> extends
  the bucket of \<open>k\<close> where it is, or adds the key last with the bucket \<open>[v]\<close>.
\<close>

type_synonym category_index = "(string \<times> tool list) list"

fun dict_append :: "('k \<times> 'v list) list \<Rightarrow> 'k \<Rightarrow> 'v \<Rightarrow> ('k \<times> 'v list) list" where
  "dict_append [] k v = [(k, [v])]"
| "dict_append ((k', vs) # kvs) k v =
     (if k' = k then (k', vs @ [v]) # kvs else (k', vs) # dict_append kvs k v)"

section \<open>The entry pattern\<close>

text \<open>
  Line 99 matches a line against
  \<^verbatim>\<open>^-\s*(?:<a name="([^"]+)">)?\[([^\]]+)\]\(([^)]+)\)\<close>.
  Every repetition of the pattern runs over a character class that excludes the
  character that must follow it, and the optional anchor starts with a character that
  the link cannot start with, so backtracking never finds a second way to match: the
  pattern is read from left to right, each repetition taking all it can.
\<close>

definition match_delimited :: "char \<Rightarrow> char \<Rightarrow> string \<Rightarrow> (string \<times> string) option" where
  \<comment> \<open>\<^verbatim>\<open>\[([^\]]+)\]\<close> and \<^verbatim>\<open>\(([^)]+)\)\<close>: the opening character, one or more
      characters other than the closing one, the closing character; the group and the
      text after the match\<close>
  "match_delimited opn cls s =
     (case s of
        [] \<Rightarrow> None
      | c # r \<Rightarrow>
          if c \<noteq> opn then None
          else let g = takeWhile (\<lambda>x. x \<noteq> cls) r;
                   r' = dropWhile (\<lambda>x. x \<noteq> cls) r
               in if g = [] \<or> r' = [] then None else Some (g, tl r'))"

definition match_anchor :: "string \<Rightarrow> (string \<times> string) option" where
  \<comment> \<open>\<^verbatim>\<open><a name="([^"]+)">\<close>\<close>
  "match_anchor s =
     (if \<not> prefix (''<a name='' @ [CHR 0x22]) s then None
      else let r = drop 9 s;
               g = takeWhile (\<lambda>x. x \<noteq> CHR 0x22) r;
               r' = dropWhile (\<lambda>x. x \<noteq> CHR 0x22) r
           in if g = [] \<or> \<not> prefix (CHR 0x22 # ''>'') r' then None
              else Some (g, drop 2 r'))"

definition tool_match :: "string \<Rightarrow> (string option \<times> string \<times> string \<times> string) option" where
  \<comment> \<open>the match object of line 99: \<^verbatim>\<open>group(1)\<close> (\<open>None\<close> when the anchor did not
      take part), \<^verbatim>\<open>group(2)\<close>, \<^verbatim>\<open>group(3)\<close> and \<^verbatim>\<open>line[tool_match.end():]\<close>\<close>
  "tool_match line =
     (case line of
        [] \<Rightarrow> None
      | c # r0 \<Rightarrow>
          if c \<noteq> CHR ''-'' then None
          else let r1 = dropWhile isspace r0;
                   (g1, r2) = (case match_anchor r1 of
                                 Some (a, r) \<Rightarrow> (Some a, r)
                               | None \<Rightarrow> (None, r1))
               in (case match_delimited CHR ''['' CHR '']'' r2 of
                     None \<Rightarrow> None
                   | Some (g2, r3) \<Rightarrow>
                       (case match_delimited CHR ''('' CHR '')'' r3 of
                          None \<Rightarrow> None
                        | Some (g3, r4) \<Rightarrow> Some (g1, g2, g3, r4))))"

section \<open>The description of an entry\<close>

definition strip_separator :: "string \<Rightarrow> string" where
  \<comment> \<open>lines 107-108\<close>
  "strip_separator d = (if prefix ''- '' d then strip (drop 2 d) else d)"

fun strip_details :: "string \<Rightarrow> string" where
  \<comment> \<open>line 111, \<^verbatim>\<open>re.sub(r'<details>.*', '', description, flags=re.DOTALL)\<close>: with
      \<^verbatim>\<open>DOTALL\<close> the first match runs to the end, so what is left is the text before
      the first \<^verbatim>\<open><details>\<close>\<close>
  "strip_details [] = []"
| "strip_details (c # cs) =
     (if prefix ''<details>'' (c # cs) then [] else c # strip_details cs)"

definition cap_description :: "string \<Rightarrow> string" where
  \<comment> \<open>line 112\<close>
  "cap_description d = (if length d > 300 then take 300 d @ ''...'' else d)"

definition clean_description :: "string \<Rightarrow> string" where
  \<comment> \<open>lines 106-111: the description before the cap of line 112, from the text after
      the match\<close>
  "clean_description rest = strip_details (strip_separator (strip rest))"

definition parse_line :: "string \<Rightarrow> string \<Rightarrow> tool option" where
  \<comment> \<open>lines 99-120: the record of one line under the category \<open>current_category\<close>,
      \<open>None\<close> when the line is no entry\<close>
  "parse_line current_category line =
     (case tool_match line of
        None \<Rightarrow> None
      | Some (g1, tool_name, tool_url, rest) \<Rightarrow>
          Some \<lparr> name = tool_name,
                 url = tool_url,
                 category = current_category,
                 description = cap_description (clean_description rest),
                 tool_id = (case g1 of None \<Rightarrow> [] | Some a \<Rightarrow> a) \<rparr>)"

section \<open>Reading and scanning the document\<close>

text \<open>
  \<^verbatim>\<open>parse_readme\<close> runs its whole body under \<^verbatim>\<open>try\<close>, with the handler
  \<^verbatim>\<open>except Exception\<close>. An exception is a value that carries its text, and the
  environment of a run says what the two things outside the function do: what opening
  and reading \<^verbatim>\<open>README.md\<close> gives (the decoded content, or the exception of a
  missing or undecodable file), and for which line, if any, the iteration over that line
  raises (\<open>None\<close> everywhere in a run that nothing disturbs). A raise leaves the body
  with the exception and the two locals \<^verbatim>\<open>tools\<close> and \<^verbatim>\<open>categories\<close> as they are
  at that moment, which the handler could still see.
\<close>

datatype exn = Exception string

fun str :: "exn \<Rightarrow> string" where
  "str (Exception m) = m"

record env =
  readme :: "exn + string"
  raises :: "string \<Rightarrow> exn option"

definition normal :: "string \<Rightarrow> env" where
  \<comment> \<open>the run in which \<^verbatim>\<open>README.md\<close> holds \<open>content\<close> and nothing raises\<close>
  "normal content = \<lparr> readme = Inr content, raises = (\<lambda>_. None) \<rparr>"

type_synonym locals = "tool list \<times> category_index"

definition category_match :: "string \<Rightarrow> string option" where
  \<comment> \<open>line 88, \<^verbatim>\<open>re.match(r'^([^#\n]+)', lines[0])\<close>: \<^verbatim>\<open>group(1)\<close>\<close>
  "category_match l =
     (let g = takeWhile (\<lambda>c. c \<noteq> CHR ''#'' \<and> c \<noteq> CHR 0x0A) l
      in if g = [] then None else Some g)"

fun scan_lines ::
  "(string \<Rightarrow> exn option) \<Rightarrow> string \<Rightarrow> locals \<Rightarrow> string list \<Rightarrow> (exn \<times> locals) + locals" where
  \<comment> \<open>the loop of lines 97-123 under the category \<open>current_category\<close>\<close>
  "scan_lines rs current_category (tools, categories) [] = Inr (tools, categories)"
| "scan_lines rs current_category (tools, categories) (line # rest) =
     (case rs line of
        Some e \<Rightarrow> Inl (e, tools, categories)
      | None \<Rightarrow>
          (case parse_line current_category line of
             None \<Rightarrow> scan_lines rs current_category (tools, categories) rest
           | Some tool_info \<Rightarrow>
               scan_lines rs current_category
                 (tools @ [tool_info], dict_append categories current_category tool_info)
                 rest))"

fun scan_sections ::
  "(string \<Rightarrow> exn option) \<Rightarrow> string \<Rightarrow> locals \<Rightarrow> string list \<Rightarrow> (exn \<times> locals) + locals" where
  \<comment> \<open>the loop of lines 82-123; \<open>current_category\<close> is carried from one section to
      the next\<close>
  "scan_sections rs current_category st [] = Inr st"
| "scan_sections rs current_category st (section # rest) =
     (case split_nl [] section of
        [] \<Rightarrow> scan_sections rs current_category st rest
      | l0 # ls \<Rightarrow>
          let current_category' =
                (case category_match l0 of
                   Some g \<Rightarrow> strip g
                 | None \<Rightarrow> current_category)
          in if current_category' \<in> set [''Table of content'', ''How to View This README'']
             then scan_sections rs current_category' st rest
             else (case scan_lines rs current_category' st (l0 # ls) of
                     Inl x \<Rightarrow> Inl x
                   | Inr st' \<Rightarrow> scan_sections rs current_category' st' rest))"

definition try_body :: "env \<Rightarrow> (exn \<times> locals) + locals" where
  \<comment> \<open>lines 71-125\<close>
  "try_body e =
     (case readme e of
        Inl x \<Rightarrow> Inl (x, [], [])
      | Inr content \<Rightarrow> scan_sections (raises e) ''General'' ([], []) (re_split [] content))"

definition parse_readme :: "env \<Rightarrow> locals \<times> string list" where
  \<comment> \<open>lines 69-129, the function that the decorator of line 68 wraps: the pair
      returned, and the messages given to \<^verbatim>\<open>st.error\<close>\<close>
  "parse_readme e =
     (case try_body e of
        Inr (tools, categories) \<Rightarrow> ((tools, categories), [])
      | Inl (x, tools, categories) \<Rightarrow> (([], []), [''Error parsing README: '' @ str x]))"

text \<open>
  Line 68 decorates the function with \<^verbatim>\<open>st.cache_data\<close>. The function has no
  argument, so the cache holds at most one entry for it: what its first run returned,
  with the elements it showed. A call that finds the entry returns it and shows its
  elements again, and does not run the function, so \<^verbatim>\<open>README.md\<close> is not read; a
  call that finds none runs the function and stores what it returns. The function
  catches what it raises, so every run that ends stores an entry.
\<close>

type_synonym cache = "(locals \<times> string list) option"

definition cached_parse_readme :: "cache \<Rightarrow> env \<Rightarrow> (locals \<times> string list) \<times> cache" where
  \<comment> \<open>lines 68-129, \<^verbatim>\<open>parse_readme\<close> as line 148 calls it: the result and the cache
      after the call\<close>
  "cached_parse_readme c e =
     (case c of
        Some r \<Rightarrow> (r, Some r)
      | None \<Rightarrow> (let r = parse_readme e in (r, Some r)))"

section \<open>The filter of the main page\<close>

definition filter_tools :: "tool list \<Rightarrow> string \<Rightarrow> string \<Rightarrow> tool list" where
  \<comment> \<open>lines 203-214\<close>
  "filter_tools tools search_query selected_category =
     (let filtered_tools = tools;
          filtered_tools =
            (if search_query \<noteq> []
             then filter (\<lambda>t. str_in (lower search_query) (lower (name t))
                              \<or> str_in (lower search_query) (lower (description t))
                              \<or> str_in (lower search_query) (lower (category t)))
                    filtered_tools
             else filtered_tools);
          filtered_tools =
            (if selected_category \<noteq> ''All''
             then filter (\<lambda>t. category t = selected_category) filtered_tools
             else filtered_tools)
      in filtered_tools)"

section \<open>What the specification says of the filter\<close>

definition spec_included :: "string \<Rightarrow> string \<Rightarrow> tool \<Rightarrow> bool" where
  \<comment> \<open>the two predicates of the filter in the specification's words, \<open>sublist\<close> being
      "occurs as a substring"\<close>
  "spec_included q c t =
     ((lower q = []
       \<or> sublist (lower q) (lower (name t))
       \<or> sublist (lower q) (lower (description t))
       \<or> sublist (lower q) (lower (category t)))
      \<and> (c = ''All'' \<or> category t = c))"

section \<open>Headings of a document and grouped locals\<close>





definition grouped :: "locals \<Rightarrow> bool" where
  \<comment> \<open>the index holds one bucket for each category of the list, and each bucket is the
      list restricted to its category\<close>
  "grouped st =
     (distinct (map fst (snd st))
      \<and> set (map fst (snd st)) = category ` set (fst st)
      \<and> (\<forall>(k, b)\<in>set (snd st). b = filter (\<lambda>t. category t = k) (fst st)))"

section \<open>Inputs of the examples\<close>

definition example_document :: string where
  "example_document =
     ''## Aligners'' @ [CHR 0x0A]
     @ ''- [ToolA](http://a.example) - Fast aligner for short reads'' @ [CHR 0x0A]
     @ ''- [ToolB](http://b.example) Handles long reads too'' @ [CHR 0x0A]
     @ ''## Table of content'' @ [CHR 0x0A]
     @ ''- [Ignored](http://x.example) should not appear''"

definition toc_document :: string where
  "toc_document =
     ''## Table of content'' @ [CHR 0x0A]
     @ ''- [Ignored](http://x.example) should not appear''"

definition two_entries :: string where
  "two_entries = ''# Tools'' @ [CHR 0x0A] @ ''- [A](u)'' @ [CHR 0x0A] @ ''- [B](v)''"


definition headed_document :: string where
  "headed_document =
     ''# Tools'' @ [CHR 0x0A] @ ''## Aligners'' @ [CHR 0x0A] @ ''- [A](u)'' @ [CHR 0x0A]
     @ ''## Callers'' @ [CHR 0x0A] @ ''- [B](v)'' @ [CHR 0x0A] @ ''- [C](w)''"

definition long_line :: string where
  \<comment> \<open>an entry whose description is 301 characters long\<close>
  "long_line = ''- [T](u) '' @ replicate 301 CHR ''a''"

definition mk_tool :: "string \<Rightarrow> string \<Rightarrow> string \<Rightarrow> string \<Rightarrow> tool" where
  "mk_tool n u c d = \<lparr> name = n, url = u, category = c, description = d, tool_id = [] \<rparr>"

definition headed_result :: "locals \<times> string list" where
  \<comment> \<open>what a run on \<open>headed_document\<close> returns\<close>
  "headed_result =
     (([mk_tool ''A'' ''u'' ''Aligners'' [], mk_tool ''B'' ''v'' ''Callers'' [],
        mk_tool ''C'' ''w'' ''Callers'' []],
       [(''Aligners'', [mk_tool ''A'' ''u'' ''Aligners'' []]),
        (''Callers'', [mk_tool ''B'' ''v'' ''Callers'' [], mk_tool ''C'' ''w'' ''Callers'' []])]),
      [])"

definition missing_file :: env where
  "missing_file =
     \<lparr> readme = Inl (Exception ''No such file or directory''), raises = (\<lambda>_. None) \<rparr>"

definition raising_at_B :: env where
  \<comment> \<open>\<^verbatim>\<open>README.md\<close> holds two entries, and the iteration over the second one raises\<close>
  "raising_at_B =
     \<lparr> readme = Inr two_entries,
       raises = (\<lambda>l. if l = ''- [B](v)'' then Some (Exception ''boom'') else None) \<rparr>"

section \<open>The filter\<close>

lemma str_in_sublist: "str_in q s = sublist q s"
  by (induction s) (simp_all add: sublist_Cons_right)

lemma lower_Nil_iff: "lower q = [] \<longleftrightarrow> q = []"
  by (simp add: lower_def)

text \<open>
  C5. The filter keeps exactly the records that satisfy both predicates of the
  specification: the lower-cased query is empty or a substring of the lower-cased name,
  description or category, and the selection is \<open>All\<close> or equal to the category. It
  keeps them as \<open>filter\<close> does, each as often and in the order of the input.
\<close>

theorem filter_tools_spec:
  "filter_tools records q c = filter (spec_included q c) records"
proof (cases "q = []")
  case True
  then have "spec_included q c = (\<lambda>t. c = ''All'' \<or> category t = c)"
    by (simp add: fun_eq_iff spec_included_def lower_Nil_iff)
  with True show ?thesis
    by (simp add: filter_tools_def)
next
  case False
  then have "spec_included q c =
      (\<lambda>t. (str_in (lower q) (lower (name t))
            \<or> str_in (lower q) (lower (description t))
            \<or> str_in (lower q) (lower (category t)))
           \<and> (c = ''All'' \<or> category t = c))"
    by (simp add: fun_eq_iff spec_included_def lower_Nil_iff str_in_sublist)
  with False show ?thesis
    by (auto simp add: filter_tools_def Let_def intro!: filter_cong)
qed

text \<open>
  C6. With the empty query and the selection \<open>All\<close> the filter returns the records as
  they are; for every query and selection its output is no longer than its input and is
  a subsequence of it, so the relative order of the records is kept.
\<close>

theorem filter_tools_monotone:
  "filter_tools records [] ''All'' = records
   \<and> length (filter_tools records q c) \<le> length records
   \<and> subseq (filter_tools records q c) records"
proof -
  have sub: "subseq (filter_tools records q c) records"
    unfolding filter_tools_def Let_def
    by (auto intro: subseq_order.order_trans [OF subseq_filter_left subseq_filter_left])
  from sub have "length (filter_tools records q c) \<le> length records"
    by (rule list_emb_length)
  then show ?thesis
    using sub by (simp add: filter_tools_def)
qed

section \<open>Failures of the run\<close>

lemma parse_readme_failed_read:
  "readme e = Inl x \<Longrightarrow>
   parse_readme e = (([], []), [''Error parsing README: '' @ str x])"
  by (simp add: parse_readme_def try_body_def)

lemma cached_parse_readme_miss:
  "cached_parse_readme None e = (parse_readme e, Some (parse_readme e))"
  by (simp add: cached_parse_readme_def Let_def)

lemma headed_run:
  "parse_readme (normal headed_document) = headed_result"
  by code_simp

text \<open>
  C7, as amended. When \<^verbatim>\<open>README.md\<close> cannot be opened or read and the cache holds
  no result of \<^verbatim>\<open>parse_readme\<close>, the call returns normally, with the empty list and
  the empty dictionary, and has given one message to \<^verbatim>\<open>st.error\<close>: the exception is
  caught and shown, and nothing is raised to the caller. That result is what the cache
  holds afterwards. When the cache holds a result, the call returns it, whatever has
  become of the file.
\<close>

theorem cached_parse_readme_unavailable:
  assumes "readme e = Inl x"
  shows "cached_parse_readme None e
           = ((([], []), [''Error parsing README: '' @ str x]),
              Some (([], []), [''Error parsing README: '' @ str x]))
         \<and> cached_parse_readme (Some r) e = (r, Some r)"
  using parse_readme_failed_read [OF assms]
  by (simp add: cached_parse_readme_def Let_def)

theorem cached_parse_readme_unavailable_witness:
  "cached_parse_readme None missing_file
     = ((([], []), [''Error parsing README: No such file or directory'']),
        Some (([], []), [''Error parsing README: No such file or directory'']))
   \<and> cached_parse_readme (Some headed_result) missing_file
       = (headed_result, Some headed_result)"
proof -
  have "readme missing_file = Inl (Exception ''No such file or directory'')"
    by (simp add: missing_file_def)
  from cached_parse_readme_unavailable [OF this, of headed_result] show ?thesis
    by simp
qed

text \<open>
  C7 as it is stated fails: after a first call that found \<open>headed_document\<close>, a call
  that finds no file returns the three records and the two buckets of the first call,
  and shows no message.
\<close>

theorem cached_result_counterexample:
  "readme missing_file = Inl (Exception ''No such file or directory'')
   \<and> cached_parse_readme None (normal headed_document) = (headed_result, Some headed_result)
   \<and> cached_parse_readme (Some headed_result) missing_file = (headed_result, Some headed_result)
   \<and> length (fst (fst headed_result)) = 3
   \<and> length (snd (fst headed_result)) = 2
   \<and> snd headed_result = []"
  using headed_run
  by (simp add: cached_parse_readme_def Let_def missing_file_def headed_result_def)

text \<open>
  C8. Whenever the body raises, at the read or in the loop, with whatever the locals
  \<^verbatim>\<open>tools\<close> and \<^verbatim>\<open>categories\<close> hold at that moment, \<^verbatim>\<open>parse_readme\<close> returns the
  empty list and the empty dictionary: nothing of a partly built result is returned.
\<close>

theorem parse_readme_atomic:
  "try_body e = Inl (x, tools, categories) \<Longrightarrow> fst (parse_readme e) = ([], [])"
  by (simp add: parse_readme_def)

theorem parse_readme_atomic_witness:
  "try_body raising_at_B
     = Inl (Exception ''boom'',
            [mk_tool ''A'' ''u'' ''General'' []],
            [(''General'', [mk_tool ''A'' ''u'' ''General'' []])])
   \<and> fst (parse_readme raising_at_B) = ([], [])"
proof -
  have body: "try_body raising_at_B
     = Inl (Exception ''boom'',
            [mk_tool ''A'' ''u'' ''General'' []],
            [(''General'', [mk_tool ''A'' ''u'' ''General'' []])])"
    by code_simp
  from parse_readme_atomic [OF body] body show ?thesis
    by simp
qed

section \<open>Lines that are entries\<close>

lemma match_delimited_group: "match_delimited opn cls s = Some (g, r) \<Longrightarrow> g \<noteq> []"
  by (auto simp add: match_delimited_def Let_def split: list.splits if_splits)

lemma tool_match_groups:
  assumes "tool_match line = Some (g1, n, u, rest)"
  shows "n \<noteq> [] \<and> u \<noteq> []"
  using assms
  by (auto simp add: tool_match_def Let_def
           split: list.splits if_splits option.splits prod.splits
           dest: match_delimited_group)

lemma parse_line_fields:
  assumes "parse_line cat line = Some t"
  shows "name t \<noteq> [] \<and> url t \<noteq> [] \<and> category t = cat"
  using assms
  by (auto simp add: parse_line_def split: option.splits prod.splits dest: tool_match_groups)

lemma takeWhile_until: "x \<notin> set g \<Longrightarrow> takeWhile (\<lambda>y. y \<noteq> x) (g @ x # r) = g"
  by (induction g) auto

lemma dropWhile_until: "x \<notin> set g \<Longrightarrow> dropWhile (\<lambda>y. y \<noteq> x) (g @ x # r) = x # r"
  by (induction g) auto

lemma match_delimited_shape:
  assumes "g \<noteq> []" and "cls \<notin> set g"
  shows "match_delimited opn cls (opn # g @ cls # r) = Some (g, r)"
proof -
  have "takeWhile (\<lambda>x. x \<noteq> cls) (g @ cls # r) = g"
    using assms(2) by (rule takeWhile_until)
  moreover have "dropWhile (\<lambda>x. x \<noteq> cls) (g @ cls # r) = cls # r"
    using assms(2) by (rule dropWhile_until)
  ultimately show ?thesis
    using assms(1) by (simp add: match_delimited_def)
qed

lemma match_anchor_shape:
  assumes "a \<noteq> []" and "CHR 0x22 \<notin> set a"
  shows "match_anchor (''<a name='' @ [CHR 0x22] @ a @ [CHR 0x22] @ ''>'' @ r) = Some (a, r)"
proof -
  have "takeWhile (\<lambda>x. x \<noteq> CHR 0x22) (a @ CHR 0x22 # CHR ''>'' # r) = a"
    using assms(2) by (rule takeWhile_until)
  moreover have "dropWhile (\<lambda>x. x \<noteq> CHR 0x22) (a @ CHR 0x22 # CHR ''>'' # r) = CHR 0x22 # CHR ''>'' # r"
    using assms(2) by (rule dropWhile_until)
  ultimately show ?thesis
    using assms(1) by (simp add: match_anchor_def)
qed

lemma match_anchor_bracket: "match_anchor (CHR ''['' # r) = None"
  by (simp add: match_anchor_def)

lemma skip_spaces:
  assumes "\<forall>c\<in>set ws. isspace c" and "\<not> isspace c"
  shows "dropWhile isspace (ws @ c # r) = c # r"
  using assms by simp

lemma not_space_bracket: "\<not> isspace CHR ''[''"
  by (simp add: isspace_def)

lemma not_space_angle: "\<not> isspace CHR ''<''"
  by (simp add: isspace_def)

lemma tool_match_plain:
  assumes "\<forall>c\<in>set ws. isspace c" and "n \<noteq> []" and "CHR '']'' \<notin> set n"
    and "u \<noteq> []" and "CHR '')'' \<notin> set u"
  shows "tool_match (''-'' @ ws @ ''['' @ n @ '']('' @ u @ '')'' @ rest) = Some (None, n, u, rest)"
proof -
  have "dropWhile isspace (ws @ CHR ''['' # n @ CHR '']'' # CHR ''('' # u @ CHR '')'' # rest)
        = CHR ''['' # n @ CHR '']'' # CHR ''('' # u @ CHR '')'' # rest"
    using assms(1) not_space_bracket by (rule skip_spaces)
  then show ?thesis
    using assms(2-5)
    by (simp add: tool_match_def match_anchor_bracket match_delimited_shape)
qed

lemma tool_match_anchored:
  assumes "\<forall>c\<in>set ws. isspace c" and "a \<noteq> []" and "CHR 0x22 \<notin> set a"
    and "n \<noteq> []" and "CHR '']'' \<notin> set n"
    and "u \<noteq> []" and "CHR '')'' \<notin> set u"
  shows "tool_match (''-'' @ ws @ ''<a name='' @ [CHR 0x22] @ a @ [CHR 0x22] @ ''>''
                     @ ''['' @ n @ '']('' @ u @ '')'' @ rest) = Some (Some a, n, u, rest)"
proof -
  let ?link = "CHR ''['' # n @ CHR '']'' # CHR ''('' # u @ CHR '')'' # rest"
  let ?tag = "''a name='' @ [CHR 0x22] @ a @ [CHR 0x22] @ ''>'' @ ?link"
  have "dropWhile isspace (ws @ CHR ''<'' # ?tag) = CHR ''<'' # ?tag"
    using assms(1) not_space_angle by (rule skip_spaces)
  moreover have "match_anchor (CHR ''<'' # ?tag) = Some (a, ?link)"
    using match_anchor_shape [OF assms(2,3), of ?link] by simp
  ultimately show ?thesis
    using assms(4-7)
    by (simp add: tool_match_def match_delimited_shape)
qed

text \<open>
  C10. A line made of the list marker, whitespace, and a link with a non-empty text free
  of \<open>]\<close> and a non-empty target free of \<open>)\<close> gives a record whose \<open>id\<close> is the
  empty string; the same line with an anchor tag of a non-empty name free of double
  quotes before the link gives a record whose \<open>id\<close> is that name as it is written.
\<close>

theorem entry_tool_id:
  assumes "\<forall>c\<in>set ws. isspace c"
    and "n \<noteq> []" and "CHR '']'' \<notin> set n"
    and "u \<noteq> []" and "CHR '')'' \<notin> set u"
  shows "map_option tool_id
           (parse_line cat (''-'' @ ws @ ''['' @ n @ '']('' @ u @ '')'' @ rest)) = Some []
         \<and> (a \<noteq> [] \<and> CHR 0x22 \<notin> set a \<longrightarrow>
              map_option tool_id
                (parse_line cat (''-'' @ ws @ ''<a name='' @ [CHR 0x22] @ a @ [CHR 0x22] @ ''>''
                                 @ ''['' @ n @ '']('' @ u @ '')'' @ rest)) = Some a)"
proof (intro conjI impI)
  show "map_option tool_id
          (parse_line cat (''-'' @ ws @ ''['' @ n @ '']('' @ u @ '')'' @ rest)) = Some []"
    using tool_match_plain [OF assms, of rest] by (simp add: parse_line_def)
next
  assume "a \<noteq> [] \<and> CHR 0x22 \<notin> set a"
  then have "tool_match (''-'' @ ws @ ''<a name='' @ [CHR 0x22] @ a @ [CHR 0x22] @ ''>''
                         @ ''['' @ n @ '']('' @ u @ '')'' @ rest) = Some (Some a, n, u, rest)"
    using assms by (intro tool_match_anchored) simp_all
  then show "map_option tool_id
          (parse_line cat (''-'' @ ws @ ''<a name='' @ [CHR 0x22] @ a @ [CHR 0x22] @ ''>''
                           @ ''['' @ n @ '']('' @ u @ '')'' @ rest)) = Some a"
    by (simp add: parse_line_def)
qed

theorem entry_tool_id_witness:
  "map_option tool_id (parse_line ''Pipelines'' ''- [Juicer](http://j) - pipeline'') = Some []
   \<and> map_option tool_id
        (parse_line ''Pipelines''
           (''- <a name='' @ [CHR 0x22] @ ''juicer'' @ [CHR 0x22] @ ''>[Juicer](http://j) - pipeline''))
       = Some ''juicer''"
proof -
  have ws: "\<forall>c\<in>set '' ''. isspace c"
    by (simp add: isspace_def)
  from entry_tool_id [OF ws, of "''Juicer''" "''http://j''" "''Pipelines''" "'' - pipeline''" "''juicer''"]
  show ?thesis by simp
qed

section \<open>The cap on the description\<close>

lemma long_line_match:
  "tool_match long_line = Some (None, ''T'', ''u'', CHR '' '' # replicate 301 CHR ''a'')"
  using tool_match_plain [of "'' ''" "''T''" "''u''" "CHR '' '' # replicate 301 CHR ''a''"]
  by (simp add: long_line_def isspace_def)

lemma long_line_clean:
  "clean_description (CHR '' '' # replicate 301 CHR ''a'') = replicate 301 CHR ''a''"
  by code_simp

lemma long_line_parse: 
   "parse_line ''General'' long_line
       = Some (mk_tool ''T'' ''u'' ''General'' (replicate 300 CHR ''a'' @ ''...''))"
  by code_simp

text \<open>
  C3, as amended. When the description of an entry, after the separator and the
  \<^verbatim>\<open><details>\<close> block are stripped, is longer than 300 characters, the stored
  description is 303 characters long: the first 300 characters of that description,
  which are a prefix of it, followed by the three dots.
\<close>

theorem description_cap:
  assumes "parse_line cat line = Some t"
    and "tool_match line = Some (g1, n, u, rest)"
    and "300 < length (clean_description rest)"
  shows "length (description t) = 303
         \<and> description t = take 300 (clean_description rest) @ ''...''
         \<and> prefix (take 300 (description t)) (clean_description rest)"
  using assms by (auto simp add: parse_line_def cap_description_def take_is_prefix)

theorem description_cap_witness:
  "length (description (mk_tool ''T'' ''u'' ''General'' (replicate 300 CHR ''a'' @ ''...''))) = 303
   \<and> description (mk_tool ''T'' ''u'' ''General'' (replicate 300 CHR ''a'' @ ''...''))
       = take 300 (clean_description (CHR '' '' # replicate 301 CHR ''a'')) @ ''...''
   \<and> prefix (take 300 (description (mk_tool ''T'' ''u'' ''General'' (replicate 300 CHR ''a'' @ ''...''))))
        (clean_description (CHR '' '' # replicate 301 CHR ''a''))"
proof -
  have "300 < length (clean_description (CHR '' '' # replicate 301 CHR ''a''))"
    by (simp add: long_line_clean)
  from description_cap [OF long_line_parse long_line_match this] show ?thesis .
qed

text \<open>
  C3 as it is stated fails: for a description of 301 letters the stored description is
  303 characters long, and so is no prefix of the 301.
\<close>

theorem description_prefix_counterexample:
  "tool_match long_line = Some (None, ''T'', ''u'', CHR '' '' # replicate 301 CHR ''a'')
   \<and> clean_description (CHR '' '' # replicate 301 CHR ''a'') = replicate 301 CHR ''a''
   \<and> 300 < length (replicate 301 CHR ''a'')
   \<and> parse_line ''General'' long_line
       = Some (mk_tool ''T'' ''u'' ''General'' (replicate 300 CHR ''a'' @ ''...''))
   \<and> description (mk_tool ''T'' ''u'' ''General'' (replicate 300 CHR ''a'' @ ''...''))
       = replicate 300 CHR ''a'' @ ''...''
   \<and> \<not> prefix (replicate 300 CHR ''a'' @ ''...'') (replicate 301 CHR ''a'')"
proof -
  have "\<not> prefix (replicate 300 CHR ''a'' @ ''...'') (replicate 301 CHR ''a'')"
  proof
    assume "prefix (replicate 300 CHR ''a'' @ ''...'') (replicate 301 CHR ''a'')"
    then have "length (replicate 300 CHR ''a'' @ ''...'') \<le> length (replicate 301 CHR ''a'')"
      by (rule prefix_length_le)
    then show False by simp
  qed
  then show ?thesis
    using long_line_match long_line_clean long_line_parse by (simp add: mk_tool_def)
qed

section \<open>Where the records of a run come from\<close>










lemma headed_parse:
  "parse_readme (normal headed_document)
     = (([mk_tool ''A'' ''u'' ''Aligners'' [], mk_tool ''B'' ''v'' ''Callers'' [],
          mk_tool ''C'' ''w'' ''Callers'' []],
         [(''Aligners'', [mk_tool ''A'' ''u'' ''Aligners'' []]),
          (''Callers'', [mk_tool ''B'' ''v'' ''Callers'' [], mk_tool ''C'' ''w'' ''Callers'' []])]),
        [])"
  by code_simp





section \<open>The index groups the list\<close>

lemma keys_dict_append:
  "map fst (dict_append kvs k v)
     = (if k \<in> set (map fst kvs) then map fst kvs else map fst kvs @ [k])"
  by (induction kvs k v rule: dict_append.induct) auto

lemma set_dict_append:
  assumes "distinct (map fst kvs)" and "(k', b') \<in> set (dict_append kvs k v)"
  shows "(k' \<noteq> k \<and> (k', b') \<in> set kvs)
         \<or> (k' = k \<and> (\<exists>b. (k, b) \<in> set kvs \<and> b' = b @ [v]))
         \<or> (k' = k \<and> k \<notin> set (map fst kvs) \<and> b' = [v])"
  using assms
proof (induction kvs k v rule: dict_append.induct)
  case (1 k v)
  then show ?case by simp
next
  case (2 k0 vs kvs k v)
  show ?case
  proof (cases "k0 = k")
    case True
    with "2.prems" show ?thesis
      by (auto simp add: rev_image_eqI)
  next
    case False
    with "2.prems" have "(k', b') = (k0, vs) \<or> (k', b') \<in> set (dict_append kvs k v)"
      by simp
    then show ?thesis
    proof
      assume "(k', b') = (k0, vs)"
      with False show ?thesis by simp
    next
      assume "(k', b') \<in> set (dict_append kvs k v)"
      moreover from "2.prems" have "distinct (map fst kvs)" by simp
      ultimately show ?thesis
        using "2.IH" [OF False] False by auto
    qed
  qed
qed

lemma grouped_append:
  assumes "grouped (tools, cats)" and "category t = k"
  shows "grouped (tools @ [t], dict_append cats k t)"
proof -
  from assms(1) have dist: "distinct (map fst cats)"
    and keys: "set (map fst cats) = category ` set tools"
    and buckets: "\<And>k b. (k, b) \<in> set cats \<Longrightarrow> b = filter (\<lambda>t. category t = k) tools"
    by (auto simp add: grouped_def)
  have "distinct (map fst (dict_append cats k t))"
    using dist by (simp add: keys_dict_append)
  moreover have "set (map fst (dict_append cats k t)) = category ` set (tools @ [t])"
    using keys assms(2) by (auto simp add: keys_dict_append)
  moreover have "b' = filter (\<lambda>t. category t = k') (tools @ [t])"
    if "(k', b') \<in> set (dict_append cats k t)" for k' b'
  proof -
    from set_dict_append [OF dist that]
    consider "k' \<noteq> k" "(k', b') \<in> set cats"
      | b where "k' = k" "(k, b) \<in> set cats" "b' = b @ [t]"
      | "k' = k" "k \<notin> set (map fst cats)" "b' = [t]"
      by blast
    then show ?thesis
    proof cases
      case 1
      with buckets [of k' b'] assms(2) show ?thesis by simp
    next
      case 2
      with buckets [of k b] assms(2) show ?thesis by simp
    next
      case 3
      from 3(2) keys have "filter (\<lambda>t. category t = k) tools = []"
        by (auto simp add: filter_empty_conv)
      with 3 assms(2) show ?thesis by simp
    qed
  qed
  ultimately show ?thesis
    by (auto simp add: grouped_def)
qed

lemma scan_lines_grouped:
  "scan_lines rs cat st ls = Inr st' \<Longrightarrow> grouped st \<Longrightarrow> grouped st'"
proof (induction rs cat st ls rule: scan_lines.induct)
  case (1 rs cat tools cats)
  then show ?case by simp
next
  case (2 rs cat tools cats line rest)
  from "2.prems"(1) have quiet: "rs line = None"
    by (simp split: option.splits)
  show ?case
  proof (cases "parse_line cat line")
    case None
    with "2.prems" quiet "2.IH"(1) show ?thesis by simp
  next
    case (Some t)
    from parse_line_fields [OF Some] "2.prems"(2)
    have "grouped (tools @ [t], dict_append cats cat t)"
      by (intro grouped_append) simp_all
    with "2.prems" quiet Some "2.IH"(2) show ?thesis by simp
  qed
qed

lemma scan_sections_grouped:
  "scan_sections rs cur st secs = Inr st' \<Longrightarrow> grouped st \<Longrightarrow> grouped st'"
proof (induction secs arbitrary: cur st)
  case Nil
  then show ?case by simp
next
  case (Cons s secs)
  then show ?case
    by (auto simp add: Let_def split: list.splits sum.splits if_splits option.splits
             dest: scan_lines_grouped)
qed

text \<open>
  C9. In what \<^verbatim>\<open>parse_readme\<close> returns, the keys of the index are distinct and are
  exactly the categories of the records of the list, and the bucket of each key is the
  list restricted to the records of that category, in the order of the list: every
  record is in the bucket of its own category and in no other.
\<close>

theorem index_partitions_records:
  assumes "parse_readme e = ((tools, cats), msgs)"
  shows "distinct (map fst cats)
         \<and> set (map fst cats) = category ` set tools
         \<and> (\<forall>(k, b)\<in>set cats. b = filter (\<lambda>t. category t = k) tools)"
proof (cases "try_body e")
  case (Inl x)
  with assms show ?thesis
    by (auto simp add: parse_readme_def split: prod.splits)
next
  case (Inr st)
  with assms have st: "st = (tools, cats)"
    by (auto simp add: parse_readme_def split: prod.splits)
  have "grouped ([], [])"
    by (simp add: grouped_def)
  with Inr have "grouped st"
    by (auto simp add: try_body_def split: sum.splits dest: scan_sections_grouped)
  with st show ?thesis
    by (simp add: grouped_def)
qed

theorem index_partitions_records_witness:
  "distinct (map fst [(''Aligners'', [mk_tool ''A'' ''u'' ''Aligners'' []]),
          (''Callers'', [mk_tool ''B'' ''v'' ''Callers'' [], mk_tool ''C'' ''w'' ''Callers'' []])])
   \<and> set (map fst [(''Aligners'', [mk_tool ''A'' ''u'' ''Aligners'' []]),
          (''Callers'', [mk_tool ''B'' ''v'' ''Callers'' [], mk_tool ''C'' ''w'' ''Callers'' []])])
      = category ` set [mk_tool ''A'' ''u'' ''Aligners'' [], mk_tool ''B'' ''v'' ''Callers'' [],
          mk_tool ''C'' ''w'' ''Callers'' []]
   \<and> [mk_tool ''B'' ''v'' ''Callers'' [], mk_tool ''C'' ''w'' ''Callers'' []]
      = filter (\<lambda>t. category t = ''Callers'')
          [mk_tool ''A'' ''u'' ''Aligners'' [], mk_tool ''B'' ''v'' ''Callers'' [],
           mk_tool ''C'' ''w'' ''Callers'' []]"
  using index_partitions_records [OF headed_parse] by simp

section \<open>The example of the specification\<close>

text \<open>
  C1. On the example document of the specification \<^verbatim>\<open>parse_readme\<close> returns the two
  records ToolA and ToolB with the descriptions of the specification and no record for
  the third entry, but both under the category \<open>General\<close>: the first line of the
  document is a heading that no line feed precedes, so the split of line 79 leaves it
  in front of the first segment, where the pattern of line 88 does not match it.
\<close>

theorem parse_readme_example:
  "parse_readme (normal example_document)
     = (([mk_tool ''ToolA'' ''http://a.example'' ''General'' ''Fast aligner for short reads'',
          mk_tool ''ToolB'' ''http://b.example'' ''General'' ''Handles long reads too''],
         [(''General'',
           [mk_tool ''ToolA'' ''http://a.example'' ''General'' ''Fast aligner for short reads'',
            mk_tool ''ToolB'' ''http://b.example'' ''General'' ''Handles long reads too''])]),
        [])"
  by code_simp

lemma skipped_section:
  assumes "split_nl [] s = l0 # ls" and "category_match l0 = Some g"
    and "strip g \<in> set [''Table of content'', ''How to View This README'']"
  shows "scan_sections rs cur st (s # rest) = scan_sections rs (strip g) st rest"
  using assms by simp

text \<open>
  C4. On a document that is nothing but the heading \<open>## Table of content\<close> and an
  entry under it, \<^verbatim>\<open>parse_readme\<close> returns the record of that entry, under the
  category \<open>General\<close>: as in the example above, the heading on the first line is not
  split off, and its section is not recognised as the table of content.
\<close>

theorem parse_readme_toc_document:
  "parse_readme (normal toc_document)
     = (([mk_tool ''Ignored'' ''http://x.example'' ''General'' ''should not appear''],
         [(''General'',
           [mk_tool ''Ignored'' ''http://x.example'' ''General'' ''should not appear''])]),
        [])"
  by code_simp

end
